theory Spec2Isabelle
  imports Complex_Main
begin

section \<open>Numbers and strings of the host language\<close>

text \<open>
  The program is JavaScript.  Its numbers are modelled as exact rationals: counts are
  \<open>nat\<close>, quotients and confidences are \<open>rat\<close>.  The rounding of IEEE doubles after each
  operation is not modelled.  Where the source divides, the model writes out what a
  division by zero yields there (\<open>NaN\<close>, \<open>Infinity\<close>) as a branch of its own.
  Strings are \<open>char list\<close>.  The Vietnamese literals of the source are written without
  their diacritics.
\<close>

type_synonym rng = "nat \<Rightarrow> rat"
  \<comment> \<open>\<open>Math.random\<close>: the stream of draws; a counter says which draw comes next.\<close>

definition digit_char :: "nat \<Rightarrow> char" where
  "digit_char d = ''0123456789'' ! d"

fun digits :: "nat \<Rightarrow> string" where
  "digits n = (if n < 10 then [digit_char n] else digits (n div 10) @ [digit_char (n mod 10)])"

declare digits.simps [simp del]

definition pad3 :: "string \<Rightarrow> string" where
  \<comment> \<open>\<open>toFixed(2)\<close> pads the digit string with zeros to at least three digits.\<close>
  "pad3 ds = replicate (3 - length ds) (CHR ''0'') @ ds"

definition round2 :: "rat \<Rightarrow> nat" where
  \<comment> \<open>The integer \<open>n\<close> with \<open>n / 100\<close> nearest to \<open>x\<close>, the larger one on a tie (\<open>x \<ge> 0\<close>).\<close>
  "round2 x = nat \<lfloor>x * 100 + 1 / 2\<rfloor>"

definition fixed2 :: "nat \<Rightarrow> string" where
  "fixed2 n = (let ds = pad3 (digits n)
               in take (length ds - 2) ds @ ''.'' @ drop (length ds - 2) ds)"

definition toFixed2 :: "rat \<Rightarrow> string" where
  \<comment> \<open>\<open>x.toFixed(2)\<close> for a finite \<open>x\<close> below \<open>1e21\<close>.\<close>
  "toFixed2 x = (if x < 0 then ''-'' @ fixed2 (round2 (- x)) else fixed2 (round2 x))"

definition is_digit :: "char \<Rightarrow> bool" where
  "is_digit c = (c \<in> set ''0123456789'')"

definition digit_val :: "char \<Rightarrow> nat" where
  \<comment> \<open>The position of a digit character among the ten digits.\<close>
  "digit_val c = length (takeWhile (\<lambda>d. d \<noteq> c) ''0123456789'')"

definition digits_val :: "string \<Rightarrow> nat" where
  "digits_val ds = foldl (\<lambda>acc c. acc * 10 + digit_val c) 0 ds"

definition parse_unsigned :: "string \<Rightarrow> rat option" where
  "parse_unsigned s =
     (let ip = takeWhile is_digit s; rest = dropWhile is_digit s;
          fp = (case rest of c # cs \<Rightarrow> if c = CHR ''.'' then takeWhile is_digit cs else []
                | [] \<Rightarrow> [])
      in if ip = [] \<and> fp = [] then None
         else Some (of_nat (digits_val ip) + of_nat (digits_val fp) / 10 ^ length fp))"

definition parseFloat :: "string \<Rightarrow> rat option" where
  \<comment> \<open>\<open>parseFloat\<close> on the longest prefix of the form sign, digits, point, digits;
      \<open>None\<close> is \<open>NaN\<close>.  Leading blanks, exponents and \<open>Infinity\<close> are left out:
      no string that reaches it here has them.\<close>
  "parseFloat s =
     (case s of
        c # cs \<Rightarrow>
          if c = CHR ''-'' then map_option uminus (parse_unsigned cs)
          else if c = CHR ''+'' then parse_unsigned cs
          else parse_unsigned s
      | [] \<Rightarrow> None)"

fun includes_str :: "string \<Rightarrow> string \<Rightarrow> bool" where
  \<comment> \<open>\<open>s.includes(sub)\<close>: \<open>sub\<close> occurs in \<open>s\<close> as a contiguous substring.\<close>
  "includes_str [] sub = (sub = [])"
| "includes_str (c # cs) sub = (take (length sub) (c # cs) = sub \<or> includes_str cs sub)"

fun join :: "string \<Rightarrow> string list \<Rightarrow> string" where
  "join sep [] = []"
| "join sep [x] = x"
| "join sep (x # y # ys) = x @ sep @ join sep (y # ys)"


section \<open>Data model\<close>

record session =
  sid :: int  \<comment> \<open>the field \<open>id\<close>\<close>
  dices :: "int list"
  point :: int
  resultTruyenThong :: string

record ratios =
  Tai :: string
  Xiu :: string

record vote =
  prediction :: char
  confidence :: rat
  explain :: string

datatype error = TypeError


section \<open>Session normalizer\<close>

definition getPatternChar :: "string \<Rightarrow> char" where
  "getPatternChar result = (if result = ''TAI'' then CHR ''T'' else CHR ''X'')"

definition getRecentPatterns :: "session list \<Rightarrow> nat \<Rightarrow> string" where
  "getRecentPatterns sessions minCount =
     (let patterns = rev (map (\<lambda>session. getPatternChar (resultTruyenThong session)) sessions)
      in take (max minCount (length patterns)) patterns)"

definition calculateRatios :: "session list \<Rightarrow> ratios" where
  \<comment> \<open>With no session both quotients are \<open>0 / 0\<close>, and \<open>NaN.toFixed(2)\<close> is \<open>NaN\<close>.\<close>
  "calculateRatios sessions =
     (let total = length sessions;
          taiCount = length (filter (\<lambda>s. resultTruyenThong s = ''TAI'') sessions);
          xiuCount = total - taiCount
      in if total = 0 then \<lparr>Tai = ''NaN%'', Xiu = ''NaN%''\<rparr>
         else \<lparr>Tai = toFixed2 (of_nat taiCount / of_nat total * 100) @ ''%'',
               Xiu = toFixed2 (of_nat xiuCount / of_nat total * 100) @ ''%''\<rparr>)"


section \<open>The five models\<close>

subsection \<open>Model 1: pattern analysis\<close>

fun matches_1_1 :: "string \<Rightarrow> bool" where
  "matches_1_1 (a # b # rest) =
     (([a, b] = ''TX'' \<or> [a, b] = ''XT'') \<and> (rest = [] \<or> matches_1_1 rest))"
| "matches_1_1 _ = False"

definition matches_2_2 :: "string \<Rightarrow> bool" where
  "matches_2_2 s = (includes_str s ''TTXX'' \<or> includes_str s ''XXTT'')"

text \<open>
  \<^const>\<open>matches_1_1\<close> is the test of the regular expression \<open>/^(TX|XT)+$/\<close>: the whole
  string is one or more blocks, each \<open>TX\<close> or \<open>XT\<close>.  \<^const>\<open>matches_2_2\<close> is the test
  of \<open>/(TTXX|XXTT)+/\<close>, which is not anchored: some block occurs somewhere.
\<close>

definition model1PatternAnalysis :: "rng \<Rightarrow> nat \<Rightarrow> string \<Rightarrow> vote \<times> nat" where
  "model1PatternAnalysis rnd k pat =
     (let lastFew = take 5 pat in
      if lastFew = ''TTTTT'' \<or> take 4 lastFew = ''TTTT'' then
        (\<lparr>prediction = CHR ''T'', confidence = 8 / 10,
          explain = ''Cau bet Tai dai, du doan tiep tuc Tai.''\<rparr>, k)
      else if lastFew = ''XXXXX'' \<or> take 4 lastFew = ''XXXX'' then
        (\<lparr>prediction = CHR ''X'', confidence = 8 / 10,
          explain = ''Cau bet Xiu dai, du doan tiep tuc Xiu.''\<rparr>, k)
      else if matches_1_1 lastFew then
        (\<lparr>prediction = (if take 1 lastFew = ''T'' then CHR ''X'' else CHR ''T''),
          confidence = 7 / 10,
          explain = ''Cau 1-1 so le, du doan dao chieu.''\<rparr>, k)
      else if matches_2_2 (take 8 pat) then
        (\<lparr>prediction = (if take 2 lastFew = ''TT'' then CHR ''X'' else CHR ''T''),
          confidence = 75 / 100,
          explain = ''Cau 2-2, du doan chuyen sang nhom tiep theo.''\<rparr>, k)
      else if includes_str pat ''TTT X'' then
        (\<lparr>prediction = CHR ''T'', confidence = 65 / 100,
          explain = ''Cau 3-1 Tai, du doan quay lai Tai.''\<rparr>, k)
      else if includes_str pat ''XXX T'' then
        (\<lparr>prediction = CHR ''X'', confidence = 65 / 100,
          explain = ''Cau 3-1 Xiu, du doan quay lai Xiu.''\<rparr>, k)
      else
        (\<lparr>prediction = (if rnd k > 1 / 2 then CHR ''T'' else CHR ''X''),
          confidence = 1 / 2,
          explain = ''Khong phat hien mau ro rang, du doan ngau nhien.''\<rparr>, Suc k))"

subsection \<open>Model 2: rolling-window frequency\<close>

definition model2Probability :: "session list \<Rightarrow> vote" where
  \<comment> \<open>With an empty window \<open>ratio\<close> is \<open>0 / 0\<close>, that is \<open>NaN\<close>, and each of the
      three comparisons is false.\<close>
  "model2Probability sessions =
     (let recent20 = take 20 sessions;
          taiCount = length (filter (\<lambda>s. resultTruyenThong s = ''TAI'') recent20)
      in if length recent20 = 0 then
           \<lparr>prediction = CHR ''X'', confidence = 6 / 10,
            explain = ''Dua tren ty le gan nhat, du doan theo ben chiem uu the.''\<rparr>
         else
           (let ratio = (of_nat taiCount :: rat) / of_nat (length recent20) in
            if ratio > 7 / 10 then
              \<lparr>prediction = CHR ''X'', confidence = 75 / 100,
               explain = ''Tai xuat hien >70% gan day, du doan Xiu de can bang.''\<rparr>
            else if ratio < 3 / 10 then
              \<lparr>prediction = CHR ''T'', confidence = 75 / 100,
               explain = ''Xiu xuat hien >70% gan day, du doan Tai de can bang.''\<rparr>
            else
              \<lparr>prediction = (if ratio > 1 / 2 then CHR ''T'' else CHR ''X''),
               confidence = 6 / 10,
               explain = ''Dua tren ty le gan nhat, du doan theo ben chiem uu the.''\<rparr>))"

subsection \<open>Model 3: Markov chain\<close>

record transitions =
  TT :: nat
  TX :: nat
  XT :: nat
  XX :: nat

definition bump :: "transitions \<Rightarrow> char \<Rightarrow> char \<Rightarrow> transitions" where
  \<comment> \<open>\<open>transitions[prev + curr]++\<close>; both characters come from \<^const>\<open>getPatternChar\<close>.\<close>
  "bump tr prev cur =
     (if prev = CHR ''T'' \<and> cur = CHR ''T'' then tr\<lparr>TT := TT tr + 1\<rparr>
      else if prev = CHR ''T'' \<and> cur = CHR ''X'' then tr\<lparr>TX := TX tr + 1\<rparr>
      else if prev = CHR ''X'' \<and> cur = CHR ''T'' then tr\<lparr>XT := XT tr + 1\<rparr>
      else if prev = CHR ''X'' \<and> cur = CHR ''X'' then tr\<lparr>XX := XX tr + 1\<rparr>
      else tr)"

definition lookup :: "transitions \<Rightarrow> char \<Rightarrow> char \<Rightarrow> nat" where
  \<comment> \<open>\<open>transitions[a + b]\<close> for \<open>a\<close> coming from \<^const>\<open>getPatternChar\<close> and \<open>b\<close> a literal.\<close>
  "lookup tr a b =
     (if a = CHR ''T'' then (if b = CHR ''T'' then TT tr else TX tr)
      else (if b = CHR ''T'' then XT tr else XX tr))"

fun markov_loop :: "session list \<Rightarrow> transitions \<Rightarrow> transitions" where
  \<comment> \<open>The loop \<open>for (i = 1; i < sessions.length; i++)\<close> over the pairs
      \<open>sessions[i-1]\<close>, \<open>sessions[i]\<close>.\<close>
  "markov_loop (p # c # rest) tr =
     markov_loop (c # rest)
       (bump tr (getPatternChar (resultTruyenThong p)) (getPatternChar (resultTruyenThong c)))"
| "markov_loop _ tr = tr"

definition markov_pT :: "nat \<Rightarrow> nat \<Rightarrow> rat" where
  \<comment> \<open>\<open>transitions[last + 'T'] / totalFromLast || 0.5\<close>: the quotient is \<open>NaN\<close> when
      the total is zero and \<open>0\<close> when only the count is; both are falsy.\<close>
  "markov_pT countT totalFromLast =
     (if totalFromLast = 0 then 1 / 2
      else if countT = 0 then 1 / 2
      else of_nat countT / of_nat totalFromLast)"

definition model3Markov :: "session list \<Rightarrow> error + vote" where
  \<comment> \<open>\<open>sessions[0].resultTruyenThong\<close> throws a \<open>TypeError\<close> when there is no session.\<close>
  "model3Markov sessions =
     (let tr = markov_loop sessions \<lparr>TT = 0, TX = 0, XT = 0, XX = 0\<rparr> in
      case sessions of
        [] \<Rightarrow> Inl TypeError
      | s0 # _ \<Rightarrow>
          (let last_c = getPatternChar (resultTruyenThong s0);
               totalFromLast = lookup tr last_c (CHR ''T'') + lookup tr last_c (CHR ''X'');
               pT = markov_pT (lookup tr last_c (CHR ''T'')) totalFromLast
           in Inr \<lparr>prediction = (if pT > 1 / 2 then CHR ''T'' else CHR ''X''),
                   confidence = (if pT > 1 / 2 then pT else 1 - pT),
                   explain = ''Xac suat chuyen tu '' @ [last_c] @ '' sang T: '' @ toFixed2 pT
                     @ '', du doan '' @ (if pT > 1 / 2 then ''Tai'' else ''Xiu'') @ ''.''\<rparr>))"

subsection \<open>Model 4: N-gram matching\<close>

function ngram_loop :: "string \<Rightarrow> string \<Rightarrow> nat \<Rightarrow> nat \<Rightarrow> nat \<times> nat \<Rightarrow> nat \<times> nat" where
  "ngram_loop history lastN n i (cT, cX) =
     (if int i < int (length history) - int n then
        ngram_loop history lastN n (i + 1)
          (if take n (drop i history) = lastN then
             (let next = history ! (i + n) in
              if next = CHR ''T'' then (cT + 1, cX)
              else if next = CHR ''X'' then (cT, cX + 1)
              else (cT, cX))
           else (cT, cX))
      else (cT, cX))"
  by pat_completeness auto
termination
  by (relation "measure (\<lambda>(history, lastN, n, i, c). length history - i)") auto

declare ngram_loop.simps [simp del]

definition model4NGram :: "string \<Rightarrow> session list \<Rightarrow> vote" where
  "model4NGram pat sessions =
     (let n = 4;
          history = map (\<lambda>s. getPatternChar (resultTruyenThong s)) sessions;
          lastN = take n pat;
          (cT, cX) = ngram_loop history lastN n 0 (0, 0);
          total = cT + cX
      in if total = 0 then
           \<lparr>prediction = CHR ''T'', confidence = 1 / 2,
            explain = ''Khong co mau khop, du doan mac dinh.''\<rparr>
         else
           (let pT = (of_nat cT :: rat) / of_nat total in
            \<lparr>prediction = (if pT > 1 / 2 then CHR ''T'' else CHR ''X''),
             confidence = max pT (1 - pT),
             explain = ''Tu mau '' @ lastN @ '', tiep theo T: '' @ toFixed2 pT
               @ '', du doan '' @ (if pT > 1 / 2 then ''Tai'' else ''Xiu'') @ ''.''\<rparr>))"

subsection \<open>Model 5: rule-based heuristic\<close>

definition exceeds :: "rat option \<Rightarrow> rat \<Rightarrow> bool" where
  \<comment> \<open>\<open>x > c\<close> for a parsed number: false on \<open>NaN\<close>.\<close>
  "exceeds x c = (case x of None \<Rightarrow> False | Some v \<Rightarrow> v > c)"

definition model5Heuristic :: "string \<Rightarrow> ratios \<Rightarrow> error + vote" where
  \<comment> \<open>\<open>pattern.match(/^([TX])\1*/)\<close> is \<open>null\<close> unless the pattern starts with \<open>T\<close> or
      \<open>X\<close>, and \<open>null[0]\<close> throws a \<open>TypeError\<close>; otherwise the match is the run of the
      first character at the head.\<close>
  "model5Heuristic pat rs =
     (case pat of
        [] \<Rightarrow> Inl TypeError
      | last_c # _ \<Rightarrow>
          if last_c \<noteq> CHR ''T'' \<and> last_c \<noteq> CHR ''X'' then Inl TypeError
          else
            (let streak = length (takeWhile (\<lambda>c. c = last_c) pat) in
             if streak \<ge> 4 then
               Inr \<lparr>prediction = (if last_c = CHR ''T'' then CHR ''X'' else CHR ''T''),
                    confidence = 7 / 10,
                    explain = ''Chuoi dai, du doan dao chieu (gay cau).''\<rparr>
             else if exceeds (parseFloat (Tai rs)) 60 then
               Inr \<lparr>prediction = CHR ''X'', confidence = 65 / 100,
                    explain = ''Ty le Tai cao, du doan Xiu.''\<rparr>
             else
               Inr \<lparr>prediction = last_c, confidence = 6 / 10,
                    explain = ''Theo xu huong gan nhat.''\<rparr>))"


section \<open>Ensemble\<close>

record tally =
  votes_T :: rat
  votes_X :: rat
  totalConfidence :: rat
  explains :: "string list"

record ensemble_result =
  du_doan :: string
  do_tin_cay :: string
  giai_thich :: string

definition add_vote :: "tally \<Rightarrow> char \<Rightarrow> rat \<Rightarrow> string \<Rightarrow> tally" where
  \<comment> \<open>\<open>votes[p] += conf; totalConfidence += conf; explains.push(e)\<close>.  A key other
      than \<open>T\<close> and \<open>X\<close> would make an entry that is never read.\<close>
  "add_vote t p conf e =
     t\<lparr>votes_T := (if p = CHR ''T'' then votes_T t + conf else votes_T t),
       votes_X := (if p = CHR ''X'' then votes_X t + conf else votes_X t),
       totalConfidence := totalConfidence t + conf,
       explains := explains t @ [e]\<rparr>"

function extra_loop :: "rng \<Rightarrow> nat \<Rightarrow> tally \<times> nat \<Rightarrow> tally \<times> nat" where
  "extra_loop rnd i (t, k) =
     (if i < 5 then
        (let avgPred = (if rnd k > 1 / 2 then CHR ''T'' else CHR ''X'');
             conf = 6 / 10 + rnd (k + 1) * (2 / 10)
         in extra_loop rnd (i + 1)
              (add_vote t avgPred conf
                 (''AI bo sung '' @ digits (i + 1) @ '': Du doan ''
                    @ (if avgPred = CHR ''T'' then ''Tai'' else ''Xiu'')
                    @ '' voi do tin cay '' @ toFixed2 conf @ ''.''),
               k + 2))
      else (t, k))"
  by pat_completeness auto
termination
  by (relation "measure (\<lambda>(rnd, i, s). 5 - i)") auto

declare extra_loop.simps [simp del]

definition percent :: "rat \<Rightarrow> rat \<Rightarrow> string" where
  \<comment> \<open>\<open>(m / totalConf * 100).toFixed(2)\<close>, with the values of a division by zero.\<close>
  "percent m totalConf =
     (if totalConf = 0 then
        (if m = 0 then ''NaN'' else if m > 0 then ''Infinity'' else ''-Infinity'')
      else toFixed2 (m / totalConf * 100))"

definition ensemblePrediction :: "rng \<Rightarrow> nat \<Rightarrow> vote list \<Rightarrow> ensemble_result \<times> nat" where
  "ensemblePrediction rnd k models =
     (let t0 = fold (\<lambda>m t. add_vote t (prediction m) (confidence m) (explain m)) models
                 \<lparr>votes_T = 0, votes_X = 0, totalConfidence = 0, explains = []\<rparr>;
          (t, k') = extra_loop rnd 0 (t0, k);
          pred = (if votes_T t > votes_X t then ''TAI'' else ''XIU'');
          conf = percent (max (votes_T t) (votes_X t)) (totalConfidence t) @ ''%'';
          fullExplain =
            ''GIAI THICH AI TONG HOP: Phan tich tu 10 AI (5 model chinh + 5 bo sung). Mau cau gan nhat: ''
              @ join '' | '' (explains t) @ '' Ket qua chinh: '' @ pred
              @ '' dua tren phieu bau va trong so.''
      in (\<lparr>du_doan = pred, do_tin_cay = conf, giai_thich = fullExplain\<rparr>, k'))"


section \<open>The endpoint\<close>

record prediction_output =
  o_session :: int
  o_dice :: "int list"
  o_total :: int
  o_result :: string
  o_next_session :: int
  o_du_doan :: string
  o_do_tin_cay :: string
  o_giai_thich :: string
  o_pattern :: string
  o_ty_le :: ratios
  o_id :: string

datatype response =
  Json_error string  \<comment> \<open>\<open>res.json({ error: ... })\<close>\<close>
| Status_500 string  \<comment> \<open>\<open>res.status(500).json({ error: ... })\<close>, from the \<open>catch\<close>\<close>
| Json_output prediction_output  \<comment> \<open>\<open>res.json(output)\<close>\<close>

definition predict :: "rng \<Rightarrow> nat \<Rightarrow> session list \<Rightarrow> response \<times> nat" where
  \<comment> \<open>The handler of \<open>/predict\<close> from the fetched \<open>data.list\<close> on.  \<open>sort\<close> with the
      comparator \<open>b.id - a.id\<close> is a stable sort by descending \<open>id\<close>.\<close>
  "predict rnd k list =
     (let sessions = sort_key (\<lambda>s. - sid s) list in
      case sessions of
        [] \<Rightarrow> (Json_error ''No sessions found'', k)
      | latest # _ \<Rightarrow>
          (let patternStr = getRecentPatterns sessions 5;
               rs = calculateRatios sessions;
               (model1, k1) = model1PatternAnalysis rnd k patternStr;
               model2 = model2Probability sessions
           in case model3Markov sessions of
                Inl e \<Rightarrow> (Status_500 ''Failed to fetch or process data'', k1)
              | Inr model3 \<Rightarrow>
                  (let model4 = model4NGram patternStr sessions in
                   case model5Heuristic patternStr rs of
                     Inl e \<Rightarrow> (Status_500 ''Failed to fetch or process data'', k1)
                   | Inr model5 \<Rightarrow>
                       (let (r, k2) = ensemblePrediction rnd k1
                                        [model1, model2, model3, model4, model5]
                        in (Json_output
                             \<lparr>o_session = sid latest, o_dice = dices latest,
                              o_total = point latest, o_result = resultTruyenThong latest,
                              o_next_session = sid latest + 1,
                              o_du_doan = du_doan r, o_do_tin_cay = do_tin_cay r,
                              o_giai_thich = giai_thich r, o_pattern = patternStr,
                              o_ty_le = rs, o_id = ''Viet Anh Ba San Tool''\<rparr>, k2)))))"


section \<open>Notions of the specification\<close>

definition vote_ok :: "rat \<Rightarrow> vote \<Rightarrow> bool" where
  \<comment> \<open>A vote for \<open>T\<close> or \<open>X\<close> with a confidence between \<open>lo\<close> and \<open>1\<close>.\<close>
  "vote_ok lo v =
     ((prediction v = CHR ''T'' \<or> prediction v = CHR ''X'')
      \<and> lo \<le> confidence v \<and> confidence v \<le> 1)"

definition spec_synthetic_voter :: "rng \<Rightarrow> nat \<Rightarrow> char \<times> rat" where
  \<comment> \<open>A supplementary voter draws a prediction, then a confidence in \<open>[0.6, 0.8)\<close>.\<close>
  "spec_synthetic_voter rnd k =
     (if rnd k > 1 / 2 then CHR ''T'' else CHR ''X'', 6 / 10 + rnd (k + 1) * (2 / 10))"

definition spec_synthetic_voters :: "rng \<Rightarrow> nat \<Rightarrow> (char \<times> rat) list" where
  \<comment> \<open>The five supplementary voters, fed by ten consecutive draws.\<close>
  "spec_synthetic_voters rnd k = map (\<lambda>i. spec_synthetic_voter rnd (k + 2 * i)) [0..<5]"

definition spec_voters :: "rng \<Rightarrow> nat \<Rightarrow> vote list \<Rightarrow> (char \<times> rat) list" where
  "spec_voters rnd k models =
     map (\<lambda>m. (prediction m, confidence m)) models @ spec_synthetic_voters rnd k"

definition spec_votes :: "char \<Rightarrow> (char \<times> rat) list \<Rightarrow> rat" where
  \<comment> \<open>\<open>votes[c]\<close>: the confidences of the voters that predict \<open>c\<close>, added up.\<close>
  "spec_votes c vs = sum_list (map snd (filter (\<lambda>v. fst v = c) vs))"

definition spec_total_weight :: "(char \<times> rat) list \<Rightarrow> rat" where
  "spec_total_weight vs = sum_list (map snd vs)"


section \<open>The pattern of a history\<close>

lemma length_getRecentPatterns: "length (getRecentPatterns sessions minCount) = length sessions"
  by (simp add: getRecentPatterns_def Let_def)

lemma getRecentPatterns_rev:
  "getRecentPatterns sessions minCount =
     rev (map (\<lambda>s. getPatternChar (resultTruyenThong s)) sessions)"
  by (simp add: getRecentPatterns_def Let_def)

lemma pattern_head_is_last_session:
  "sessions \<noteq> [] \<Longrightarrow>
     hd (getRecentPatterns sessions minCount) = getPatternChar (resultTruyenThong (last sessions))"
  by (simp add: getRecentPatterns_rev hd_rev last_map)

text \<open>
  C1.  The claim: for every non-empty history the pattern is as long as the history, and
  its first character is the symbol of the session with the greatest \<open>id\<close>.  The length
  is as claimed (\<open>length_getRecentPatterns\<close>).  The first character is not: the
  endpoint sorts the sessions latest first and \<^const>\<open>getRecentPatterns\<close> then reverses
  them, so the pattern starts with the last of the sorted sessions, the oldest
  (\<open>pattern_head_is_last_session\<close>).  On the history of session 2
  (\<open>TAI\<close>) and session 1 (\<open>XIU\<close>) the latest session is \<open>TAI\<close>, symbol \<open>T\<close>, and the
  pattern is \<open>XT\<close>.
\<close>

theorem pattern_starts_with_oldest:
  "(let sessions = sort_key (\<lambda>s. - sid s)
        [\<lparr>sid = 2, dices = [], point = 0, resultTruyenThong = ''TAI''\<rparr>,
         \<lparr>sid = 1, dices = [], point = 0, resultTruyenThong = ''XIU''\<rparr>]
    in sid (hd sessions) = 2
       \<and> getPatternChar (resultTruyenThong (hd sessions)) = CHR ''T''
       \<and> getRecentPatterns sessions 5 = ''XT'')"
  by (simp add: getRecentPatterns_def getPatternChar_def)


section \<open>The empty history\<close>

text \<open>
  C7.  With no session the endpoint answers with the error \<open>No sessions found\<close>: the
  response is not a prediction, and the counter of the random source is where it was, so
  neither the fallback of model 1 nor the ensemble has drawn from it.
\<close>

theorem predict_empty_history:
  "predict rnd k [] = (Json_error ''No sessions found'', k)"
  by (simp add: predict_def)


section \<open>Model 3 on a history with no transition to T\<close>

text \<open>
  C3.  The claim: when some transition out of the most recent symbol was observed, the
  model computes \<open>p = count(last\<rightarrow>T) / (count(last\<rightarrow>T) + count(last\<rightarrow>X))\<close> and reports the
  confidence \<open>max p (1 - p)\<close>; \<open>1 / 2\<close> stands in for \<open>p\<close> only when the denominator is
  zero.  On the history \<open>TAI, XIU, TAI\<close> (ids 3, 2, 1; the same read in either
  direction) the table holds no transition from \<open>T\<close> to \<open>T\<close> and one from \<open>T\<close> to \<open>X\<close>,
  so \<open>p\<close> is \<open>0\<close> and the claimed confidence is \<open>1\<close>.  The quotient \<open>0\<close> is falsy, the
  source's \<open>|| 0.5\<close> replaces it, and the model reports \<open>1 / 2\<close>.
\<close>

theorem markov_zero_count_takes_fallback:
  "(let sessions =
        [\<lparr>sid = 3, dices = [], point = 0, resultTruyenThong = ''TAI''\<rparr>,
         \<lparr>sid = 2, dices = [], point = 0, resultTruyenThong = ''XIU''\<rparr>,
         \<lparr>sid = 1, dices = [], point = 0, resultTruyenThong = ''TAI''\<rparr>];
        tr = markov_loop sessions \<lparr>TT = 0, TX = 0, XT = 0, XX = 0\<rparr>
    in lookup tr (CHR ''T'') (CHR ''T'') = 0 \<and> lookup tr (CHR ''T'') (CHR ''X'') = 1
       \<and> model3Markov sessions =
           Inr \<lparr>prediction = CHR ''X'', confidence = 1 / 2,
                explain = ''Xac suat chuyen tu T sang T: 0.50, du doan Xiu.''\<rparr>)"
  by code_simp


section \<open>Model 1 on an alternation and on a run\<close>

lemma matches_1_1_even: "matches_1_1 s \<Longrightarrow> even (length s)"
  by (induction s rule: matches_1_1.induct) auto

lemma matches_1_1_five: "length pat \<ge> 5 \<Longrightarrow> \<not> matches_1_1 (take 5 pat)"
  using matches_1_1_even [of "take 5 pat"] by auto

lemma includes_str_mem: "includes_str s sub \<Longrightarrow> set sub \<subseteq> set s"
proof (induction s)
  case Nil
  then show ?case by simp
next
  case (Cons c cs)
  show ?case
  proof (cases "take (length sub) (c # cs) = sub")
    case True
    then have "set sub \<subseteq> set (c # cs)"
      by (metis set_take_subset)
    then show ?thesis .
  next
    case False
    with Cons show ?thesis by auto
  qed
qed

lemma rule_3_1_never_fires:
  "CHR '' '' \<notin> set pat \<Longrightarrow> confidence (fst (model1PatternAnalysis rnd k pat)) \<noteq> 65 / 100"
proof -
  assume a: "CHR '' '' \<notin> set pat"
  have "\<not> includes_str pat ''TTT X''" "\<not> includes_str pat ''XXX T''"
    using a includes_str_mem [of pat "''TTT X''"] includes_str_mem [of pat "''XXX T''"]
    by auto
  then show ?thesis
    by (simp add: model1PatternAnalysis_def Let_def)
qed

text \<open>
  C4.  The claim: when the five most recent characters alternate strictly and no streak
  rule fires, model 1 predicts the opposite of the most recent symbol with confidence
  \<open>0.7\<close>.  The source tests the five characters against \<open>/^(TX|XT)+$/\<close>, which only a
  string of even length matches (\<open>matches_1_1_five\<close>).  On \<open>TXTXT\<close> no rule fires and
  the model falls through to the random default with confidence \<open>0.5\<close>.
\<close>

theorem alternation_of_five_falls_to_default:
  "model1PatternAnalysis rnd k ''TXTXT'' =
     (\<lparr>prediction = (if rnd k > 1 / 2 then CHR ''T'' else CHR ''X''), confidence = 1 / 2,
       explain = ''Khong phat hien mau ro rang, du doan ngau nhien.''\<rparr>, Suc k)"
  by (simp add: model1PatternAnalysis_def matches_2_2_def)

text \<open>
  C5.  The claim: when the pattern holds four \<open>T\<close> followed by \<open>X\<close> and no rule of higher
  priority fires, model 1 predicts \<open>T\<close> with confidence \<open>0.65\<close>, and symmetrically for
  \<open>X\<close>.  The source searches the pattern for the literals \<open>TTT X\<close> and \<open>XXX T\<close>, each with
  a blank inside, and a pattern has no blank (\<open>rule_3_1_never_fires\<close>).  On \<open>XTTTTX\<close>
  no rule fires and the model falls through to the random default with confidence
  \<open>0.5\<close>.
\<close>

theorem run_then_opposite_falls_to_default:
  "model1PatternAnalysis rnd k ''XTTTTX'' =
     (\<lparr>prediction = (if rnd k > 1 / 2 then CHR ''T'' else CHR ''X''), confidence = 1 / 2,
       explain = ''Khong phat hien mau ro rang, du doan ngau nhien.''\<rparr>, Suc k)"
  by (simp add: model1PatternAnalysis_def matches_2_2_def)


section \<open>Printing and reading a number with two decimals\<close>

lemma digit_cases:
  "d < 10 \<Longrightarrow>
     d = 0 \<or> d = 1 \<or> d = 2 \<or> d = 3 \<or> d = 4 \<or> d = 5 \<or> d = 6 \<or> d = 7 \<or> d = 8 \<or> d = (9::nat)"
  by arith

lemma digit_val_digit_char: "d < 10 \<Longrightarrow> digit_val (digit_char d) = d"
  using digit_cases [of d] by (auto simp: digit_val_def digit_char_def)

lemma is_digit_digit_char: "d < 10 \<Longrightarrow> is_digit (digit_char d)"
  using digit_cases [of d] by (auto simp: is_digit_def digit_char_def)

lemma digits_all_digit: "c \<in> set (digits n) \<Longrightarrow> is_digit c"
proof (induction n rule: digits.induct)
  case (1 n)
  show ?case
  proof (cases "n < 10")
    case True
    with "1.prems" show ?thesis
      by (simp add: digits.simps [of n] is_digit_digit_char)
  next
    case False
    with "1.prems" "1.IH" show ?thesis
      by (auto simp: digits.simps [of n] is_digit_digit_char)
  qed
qed

lemma digits_val_snoc: "digits_val (ds @ [c]) = digits_val ds * 10 + digit_val c"
  by (simp add: digits_val_def)

lemma digits_val_digits: "digits_val (digits n) = n"
proof (induction n rule: digits.induct)
  case (1 n)
  show ?case
  proof (cases "n < 10")
    case True
    then show ?thesis
      by (simp add: digits.simps [of n] digits_val_def digit_val_digit_char)
  next
    case False
    with "1.IH" show ?thesis
      by (simp add: digits.simps [of n] digits_val_snoc digit_val_digit_char)
  qed
qed

lemma digits_val_append:
  "digits_val (xs @ ys) = digits_val xs * 10 ^ length ys + digits_val ys"
proof (induction ys rule: rev_induct)
  case Nil
  then show ?case by (simp add: digits_val_def)
next
  case (snoc y ys)
  have "digits_val (xs @ ys @ [y]) = digits_val ((xs @ ys) @ [y])" by simp
  also have "\<dots> = digits_val (xs @ ys) * 10 + digit_val y" by (rule digits_val_snoc)
  finally show ?case using snoc by (simp add: digits_val_snoc algebra_simps)
qed

lemma digit_val_zero: "digit_val (CHR ''0'') = 0"
  by (simp add: digit_val_def)

lemma digits_val_replicate_zero: "digits_val (replicate k (CHR ''0'')) = 0"
proof (induction k)
  case 0
  then show ?case by (simp add: digits_val_def)
next
  case (Suc k)
  have "replicate (Suc k) (CHR ''0'') = replicate k (CHR ''0'') @ [CHR ''0'']"
    by (simp add: replicate_append_same)
  then have "digits_val (replicate (Suc k) (CHR ''0'')) =
      digits_val (replicate k (CHR ''0'')) * 10 + digit_val (CHR ''0'')"
    by (simp only: digits_val_snoc)
  then show ?case using Suc by (simp add: digit_val_zero)
qed

lemma digits_val_zeros: "digits_val (replicate k (CHR ''0'') @ ds) = digits_val ds"
  by (simp add: digits_val_append digits_val_replicate_zero)

lemma is_digit_zero: "is_digit (CHR ''0'')"
  by (simp add: is_digit_def)

lemma pad3_all_digit: "c \<in> set (pad3 (digits n)) \<Longrightarrow> is_digit c"
  by (auto simp: pad3_def is_digit_zero digits_all_digit)

lemma pad3_length: "3 \<le> length (pad3 ds)"
  by (simp add: pad3_def)

lemma pad3_val: "digits_val (pad3 (digits n)) = n"
  by (simp add: pad3_def digits_val_zeros digits_val_digits)

lemma not_digit_point: "\<not> is_digit (CHR ''.'')"
  by (simp add: is_digit_def)

lemma not_digit_percent: "\<not> is_digit (CHR ''%'')"
  by (simp add: is_digit_def)

lemma parse_unsigned_shape:
  assumes ip: "\<forall>c\<in>set ip. is_digit c" and fp: "\<forall>c\<in>set fp. is_digit c"
    and ne: "ip \<noteq> []"
  shows "parse_unsigned (ip @ ''.'' @ fp @ ''%'') =
           Some (of_nat (digits_val ip) + of_nat (digits_val fp) / 10 ^ length fp)"
proof -
  have t1: "takeWhile is_digit (ip @ ''.'' @ fp @ ''%'') = ip"
    using ip by (simp add: takeWhile_append2 not_digit_point)
  have d1: "dropWhile is_digit (ip @ ''.'' @ fp @ ''%'') = ''.'' @ fp @ ''%''"
    using ip by (simp add: dropWhile_append2 not_digit_point)
  have t2: "takeWhile is_digit (fp @ ''%'') = fp"
    using fp by (simp add: takeWhile_append2 not_digit_percent)
  show ?thesis
    unfolding parse_unsigned_def t1 d1 using ne t2 by (simp add: Let_def)
qed

lemma fixed2_parse: "parse_unsigned (fixed2 n @ ''%'') = Some (of_nat n / 100)"
proof -
  define ds where "ds = pad3 (digits n)"
  define ip where "ip = take (length ds - 2) ds"
  define fp where "fp = drop (length ds - 2) ds"
  have len: "3 \<le> length ds" by (simp add: ds_def pad3_length)
  have dig: "\<forall>c\<in>set ds. is_digit c" using pad3_all_digit by (auto simp: ds_def)
  have split: "ds = ip @ fp" by (simp add: ip_def fp_def)
  have lfp: "length fp = 2" using len by (simp add: fp_def)
  have ne: "ip \<noteq> []" using len by (auto simp: ip_def)
  have ipd: "\<forall>c\<in>set ip. is_digit c" using dig by (auto simp: ip_def dest: in_set_takeD)
  have fpd: "\<forall>c\<in>set fp. is_digit c" using dig by (auto simp: fp_def dest: in_set_dropD)
  have val: "n = digits_val ip * 100 + digits_val fp"
    using pad3_val [of n] digits_val_append [of ip fp] lfp by (simp add: ds_def [symmetric] split)
  have "fixed2 n @ ''%'' = ip @ ''.'' @ fp @ ''%''"
    by (simp add: fixed2_def Let_def ds_def [symmetric] ip_def fp_def)
  then have "parse_unsigned (fixed2 n @ ''%'') =
      Some (of_nat (digits_val ip) + of_nat (digits_val fp) / 10 ^ length fp)"
    using parse_unsigned_shape [OF ipd fpd ne] by simp
  also have "\<dots> = Some (of_nat n / 100)"
  proof -
    have "(of_nat n :: rat) = of_nat (digits_val ip) * 100 + of_nat (digits_val fp)"
      by (subst val) simp
    then show ?thesis by (simp add: lfp field_simps)
  qed
  finally show ?thesis .
qed

lemma fixed2_head: "\<exists>c cs. fixed2 n = c # cs \<and> is_digit c"
proof -
  define ds where "ds = pad3 (digits n)"
  have len: "3 \<le> length ds" by (simp add: ds_def pad3_length)
  then obtain c cs where cs: "ds = c # cs" by (cases ds) auto
  have "is_digit c" using pad3_all_digit [of c n] cs by (simp add: ds_def)
  moreover have "length ds - 2 = Suc (length cs - 2)"
    using len cs by simp
  then have "fixed2 n = c # (take (length cs - 2) cs @ ''.'' @ drop (length ds - 2) ds)"
    using cs by (simp add: fixed2_def Let_def ds_def [symmetric])
  ultimately show ?thesis by blast
qed

lemma parseFloat_toFixed2:
  assumes "0 \<le> x"
  shows "parseFloat (toFixed2 x @ ''%'') = Some (of_nat (round2 x) / 100)"
proof -
  obtain c cs where h: "fixed2 (round2 x) = c # cs" "is_digit c"
    using fixed2_head by blast
  have "c \<noteq> CHR ''-''" "c \<noteq> CHR ''+''" using h(2) by (auto simp: is_digit_def)
  then have "parseFloat (fixed2 (round2 x) @ ''%'') = parse_unsigned (fixed2 (round2 x) @ ''%'')"
    using h(1) by (simp add: parseFloat_def)
  then show ?thesis using assms by (simp add: toFixed2_def fixed2_parse)
qed

lemma round2_bounds:
  assumes "0 \<le> x"
  shows "x * 100 - 1 / 2 < of_nat (round2 x)" and "of_nat (round2 x) \<le> x * 100 + 1 / 2"
proof -
  have nn: "0 \<le> \<lfloor>x * 100 + 1 / 2\<rfloor>" using assms by simp
  then have eq: "(of_nat (round2 x) :: rat) = of_int \<lfloor>x * 100 + 1 / 2\<rfloor>"
    by (simp add: round2_def)
  show "x * 100 - 1 / 2 < of_nat (round2 x)"
    unfolding eq using floor_correct [of "x * 100 + 1 / 2"] by linarith
  show "of_nat (round2 x) \<le> x * 100 + 1 / 2"
    unfolding eq by (rule of_int_floor_le)
qed


section \<open>Ratios\<close>




section \<open>The votes of the five models\<close>

lemma getPatternChar_cases: "getPatternChar r = CHR ''T'' \<or> getPatternChar r = CHR ''X''"
  by (simp add: getPatternChar_def)

lemma model1_vote_ok: "vote_ok (1 / 2) (fst (model1PatternAnalysis rnd k pat))"
  by (simp add: model1PatternAnalysis_def vote_ok_def Let_def)

lemma model2_vote_ok: "vote_ok (1 / 2) (model2Probability sessions)"
  by (simp add: model2Probability_def vote_ok_def Let_def)

lemma markov_pT_range: "0 \<le> markov_pT c (c + d) \<and> markov_pT c (c + d) \<le> 1"
  by (simp add: markov_pT_def)

lemma model3_vote_ok:
  assumes "sessions \<noteq> []"
  shows "\<exists>v. model3Markov sessions = Inr v \<and> vote_ok (1 / 2) v"
proof -
  obtain s0 rest where s: "sessions = s0 # rest" using assms by (cases sessions) auto
  define tr where "tr = markov_loop sessions \<lparr>TT = 0, TX = 0, XT = 0, XX = 0\<rparr>"
  define last_c where "last_c = getPatternChar (resultTruyenThong s0)"
  define pT where "pT = markov_pT (lookup tr last_c (CHR ''T''))
     (lookup tr last_c (CHR ''T'') + lookup tr last_c (CHR ''X''))"
  have r: "0 \<le> pT" "pT \<le> 1" using markov_pT_range by (simp_all add: pT_def)
  have "model3Markov sessions =
      Inr \<lparr>prediction = (if pT > 1 / 2 then CHR ''T'' else CHR ''X''),
           confidence = (if pT > 1 / 2 then pT else 1 - pT),
           explain = ''Xac suat chuyen tu '' @ [last_c] @ '' sang T: '' @ toFixed2 pT
             @ '', du doan '' @ (if pT > 1 / 2 then ''Tai'' else ''Xiu'') @ ''.''\<rparr>"
    by (simp add: model3Markov_def Let_def s tr_def last_c_def pT_def)
  moreover have "vote_ok (1 / 2)
      \<lparr>prediction = (if pT > 1 / 2 then CHR ''T'' else CHR ''X''),
       confidence = (if pT > 1 / 2 then pT else 1 - pT),
       explain = ''Xac suat chuyen tu '' @ [last_c] @ '' sang T: '' @ toFixed2 pT
         @ '', du doan '' @ (if pT > 1 / 2 then ''Tai'' else ''Xiu'') @ ''.''\<rparr>"
    using r by (simp add: vote_ok_def)
  ultimately show ?thesis by simp
qed

lemma quotient_range:
  fixes a b :: nat
  assumes "a + b \<noteq> 0"
  shows "0 \<le> (of_nat a :: rat) / of_nat (a + b) \<and> (of_nat a :: rat) / of_nat (a + b) \<le> 1"
proof -
  have p: "(0::rat) < of_nat (a + b)" using assms by (simp del: of_nat_add)
  have "(of_nat a :: rat) \<le> of_nat (a + b)" by (simp del: of_nat_add)
  then have "(of_nat a :: rat) / of_nat (a + b) \<le> 1"
    using p by (simp only: pos_divide_le_eq mult_1)
  moreover have "0 \<le> (of_nat a :: rat) / of_nat (a + b)"
    by (simp del: of_nat_add)
  ultimately show ?thesis by simp
qed

lemma model4_vote_ok: "vote_ok (1 / 2) (model4NGram pat sessions)"
proof -
  define history where "history = map (\<lambda>s. getPatternChar (resultTruyenThong s)) sessions"
  obtain cT cX where c: "ngram_loop history (take 4 pat) 4 0 (0, 0) = (cT, cX)"
    by (cases "ngram_loop history (take 4 pat) 4 0 (0, 0)") auto
  show ?thesis
  proof (cases "cT + cX = 0")
    case True
    then show ?thesis
      using c by (simp add: model4NGram_def Let_def history_def vote_ok_def)
  next
    case False
    define pT :: rat where "pT = of_nat cT / of_nat (cT + cX)"
    have r: "0 \<le> pT \<and> pT \<le> 1"
      unfolding pT_def using False by (rule quotient_range)
    have "model4NGram pat sessions =
        \<lparr>prediction = (if pT > 1 / 2 then CHR ''T'' else CHR ''X''),
         confidence = max pT (1 - pT),
         explain = ''Tu mau '' @ take 4 pat @ '', tiep theo T: '' @ toFixed2 pT
           @ '', du doan '' @ (if pT > 1 / 2 then ''Tai'' else ''Xiu'') @ ''.''\<rparr>"
      using c False by (simp add: model4NGram_def Let_def history_def pT_def del: of_nat_add)
    moreover have "1 / 2 \<le> max pT (1 - pT)" "max pT (1 - pT) \<le> 1"
      using r by (auto simp: max_def)
    ultimately show ?thesis by (simp add: vote_ok_def)
  qed
qed

lemma pattern_head:
  assumes "sessions \<noteq> []"
  shows "\<exists>c cs. getRecentPatterns sessions m = c # cs \<and> (c = CHR ''T'' \<or> c = CHR ''X'')"
proof -
  have len: "length (getRecentPatterns sessions m) = length sessions"
    by (rule length_getRecentPatterns)
  then obtain c cs where p: "getRecentPatterns sessions m = c # cs"
    using assms by (cases "getRecentPatterns sessions m") auto
  have "c \<in> set (getRecentPatterns sessions m)" by (simp add: p)
  then have "c \<in> (\<lambda>s. getPatternChar (resultTruyenThong s)) ` set sessions"
    by (simp add: getRecentPatterns_rev)
  then have "c = CHR ''T'' \<or> c = CHR ''X''"
    using getPatternChar_cases by auto
  with p show ?thesis by blast
qed

lemma model5_vote_ok:
  assumes "pat = c # cs" and "c = CHR ''T'' \<or> c = CHR ''X''"
  shows "\<exists>v. model5Heuristic pat rs = Inr v \<and> vote_ok (1 / 2) v"
  using assms by (auto simp: model5Heuristic_def Let_def vote_ok_def)

text \<open>
  C10.  For every non-empty history and every random source, each of the five models
  returns a vote: its prediction is \<open>T\<close> or \<open>X\<close> and its confidence lies between \<open>0.5\<close>
  and \<open>1\<close>.  Models 3 and 5, which can throw, do not.
\<close>

theorem model_votes_in_range:
  assumes "sessions \<noteq> []"
  shows "vote_ok (1 / 2) (fst (model1PatternAnalysis rnd k (getRecentPatterns sessions 5)))
       \<and> vote_ok (1 / 2) (model2Probability sessions)
       \<and> (\<exists>v. model3Markov sessions = Inr v \<and> vote_ok (1 / 2) v)
       \<and> vote_ok (1 / 2) (model4NGram (getRecentPatterns sessions 5) sessions)
       \<and> (\<exists>v. model5Heuristic (getRecentPatterns sessions 5) (calculateRatios sessions) = Inr v
              \<and> vote_ok (1 / 2) v)"
proof -
  obtain c cs where "getRecentPatterns sessions 5 = c # cs" "c = CHR ''T'' \<or> c = CHR ''X''"
    using pattern_head [OF assms] by blast
  then have "\<exists>v. model5Heuristic (getRecentPatterns sessions 5) (calculateRatios sessions) = Inr v
              \<and> vote_ok (1 / 2) v"
    by (rule model5_vote_ok)
  then show ?thesis
    using model1_vote_ok model2_vote_ok model3_vote_ok [OF assms] model4_vote_ok by blast
qed

theorem model_votes_in_range_witness:
  "[\<lparr>sid = 2, dices = [], point = 0, resultTruyenThong = ''TAI''\<rparr>,
    \<lparr>sid = 1, dices = [], point = 0, resultTruyenThong = ''XIU''\<rparr>] \<noteq> []
   \<and> (vote_ok (1 / 2) (fst (model1PatternAnalysis (\<lambda>i. 0) 0 (getRecentPatterns
          [\<lparr>sid = 2, dices = [], point = 0, resultTruyenThong = ''TAI''\<rparr>,
           \<lparr>sid = 1, dices = [], point = 0, resultTruyenThong = ''XIU''\<rparr>] 5)))
       \<and> vote_ok (1 / 2) (model2Probability
          [\<lparr>sid = 2, dices = [], point = 0, resultTruyenThong = ''TAI''\<rparr>,
           \<lparr>sid = 1, dices = [], point = 0, resultTruyenThong = ''XIU''\<rparr>])
       \<and> (\<exists>v. model3Markov
          [\<lparr>sid = 2, dices = [], point = 0, resultTruyenThong = ''TAI''\<rparr>,
           \<lparr>sid = 1, dices = [], point = 0, resultTruyenThong = ''XIU''\<rparr>] = Inr v
            \<and> vote_ok (1 / 2) v)
       \<and> vote_ok (1 / 2) (model4NGram (getRecentPatterns
          [\<lparr>sid = 2, dices = [], point = 0, resultTruyenThong = ''TAI''\<rparr>,
           \<lparr>sid = 1, dices = [], point = 0, resultTruyenThong = ''XIU''\<rparr>] 5)
          [\<lparr>sid = 2, dices = [], point = 0, resultTruyenThong = ''TAI''\<rparr>,
           \<lparr>sid = 1, dices = [], point = 0, resultTruyenThong = ''XIU''\<rparr>])
       \<and> (\<exists>v. model5Heuristic (getRecentPatterns
          [\<lparr>sid = 2, dices = [], point = 0, resultTruyenThong = ''TAI''\<rparr>,
           \<lparr>sid = 1, dices = [], point = 0, resultTruyenThong = ''XIU''\<rparr>] 5)
          (calculateRatios
          [\<lparr>sid = 2, dices = [], point = 0, resultTruyenThong = ''TAI''\<rparr>,
           \<lparr>sid = 1, dices = [], point = 0, resultTruyenThong = ''XIU''\<rparr>]) = Inr v
            \<and> vote_ok (1 / 2) v))"
proof -
  have h: "[\<lparr>sid = 2, dices = [], point = 0, resultTruyenThong = ''TAI''\<rparr>,
            \<lparr>sid = 1, dices = [], point = 0, resultTruyenThong = ''XIU''\<rparr>] \<noteq> []"
    by simp
  from h model_votes_in_range [OF h, of "\<lambda>i. 0" 0] show ?thesis
    by (rule conjI)
qed


section \<open>The ensemble against the votes of the specification\<close>

lemma extra_loop_step:
  "i < 5 \<Longrightarrow>
   extra_loop rnd i (t, k) =
     extra_loop rnd (Suc i)
       (add_vote t (if rnd k > 1 / 2 then CHR ''T'' else CHR ''X'')
          (6 / 10 + rnd (k + 1) * (2 / 10))
          (''AI bo sung '' @ digits (i + 1) @ '': Du doan ''
             @ (if rnd k > 1 / 2 then ''Tai'' else ''Xiu'')
             @ '' voi do tin cay '' @ toFixed2 (6 / 10 + rnd (k + 1) * (2 / 10)) @ ''.''),
        k + 2)"
  by (subst extra_loop.simps) (simp add: Let_def)

lemma extra_loop_stop: "5 \<le> i \<Longrightarrow> extra_loop rnd i s = s"
  by (cases s) (simp add: extra_loop.simps)

lemma upt_0_Suc: "[0..<Suc n] = 0 # map Suc [0..<n]"
  by (simp only: upt_conv_Cons [of 0 "Suc n"] zero_less_Suc map_Suc_upt)

lemma spec_votes_Cons:
  "spec_votes c (v # vs) = (if fst v = c then snd v else 0) + spec_votes c vs"
  by (simp add: spec_votes_def)

lemma spec_total_weight_Cons: "spec_total_weight (v # vs) = snd v + spec_total_weight vs"
  by (simp add: spec_total_weight_def)

lemma extra_loop_tally:
  "i + n = 5 \<Longrightarrow>
   votes_T (fst (extra_loop rnd i (t, k))) =
     votes_T t + spec_votes (CHR ''T'') (map (\<lambda>j. spec_synthetic_voter rnd (k + 2 * j)) [0..<n])
   \<and> votes_X (fst (extra_loop rnd i (t, k))) =
     votes_X t + spec_votes (CHR ''X'') (map (\<lambda>j. spec_synthetic_voter rnd (k + 2 * j)) [0..<n])
   \<and> totalConfidence (fst (extra_loop rnd i (t, k))) =
     totalConfidence t
       + spec_total_weight (map (\<lambda>j. spec_synthetic_voter rnd (k + 2 * j)) [0..<n])
   \<and> snd (extra_loop rnd i (t, k)) = k + 2 * n"
proof (induction n arbitrary: i t k)
  case 0
  then show ?case
    by (simp add: extra_loop_stop spec_votes_def spec_total_weight_def)
next
  case (Suc n)
  then have i: "i < 5" and n: "Suc i + n = 5" by simp_all
  have shift: "map (\<lambda>j. spec_synthetic_voter rnd (k + 2 * j)) [0..<Suc n] =
      spec_synthetic_voter rnd k # map (\<lambda>j. spec_synthetic_voter rnd (k + 2 + 2 * j)) [0..<n]"
    by (simp only: upt_0_Suc list.map map_map o_def) simp
  show ?case
    unfolding extra_loop_step [OF i] shift spec_votes_Cons spec_total_weight_Cons
    using Suc.IH [OF n]
    by (simp add: add_vote_def spec_synthetic_voter_def)
qed

lemma fold_add_vote:
  "votes_T (fold (\<lambda>m t. add_vote t (prediction m) (confidence m) (explain m)) models t) =
     votes_T t + spec_votes (CHR ''T'') (map (\<lambda>m. (prediction m, confidence m)) models)
   \<and> votes_X (fold (\<lambda>m t. add_vote t (prediction m) (confidence m) (explain m)) models t) =
     votes_X t + spec_votes (CHR ''X'') (map (\<lambda>m. (prediction m, confidence m)) models)
   \<and> totalConfidence (fold (\<lambda>m t. add_vote t (prediction m) (confidence m) (explain m)) models t) =
     totalConfidence t + spec_total_weight (map (\<lambda>m. (prediction m, confidence m)) models)"
  by (induction models arbitrary: t)
     (simp_all add: add_vote_def spec_votes_def spec_total_weight_def)

lemma spec_votes_append: "spec_votes c (xs @ ys) = spec_votes c xs + spec_votes c ys"
  by (simp add: spec_votes_def)

lemma spec_total_weight_append:
  "spec_total_weight (xs @ ys) = spec_total_weight xs + spec_total_weight ys"
  by (simp add: spec_total_weight_def)

lemma ensemble_tally:
  fixes rnd k models
  defines "t0 \<equiv> fold (\<lambda>m t. add_vote t (prediction m) (confidence m) (explain m)) models
                 \<lparr>votes_T = 0, votes_X = 0, totalConfidence = 0, explains = []\<rparr>"
  defines "t \<equiv> fst (extra_loop rnd 0 (t0, k))"
  shows "votes_T t = spec_votes (CHR ''T'') (spec_voters rnd k models)"
    and "votes_X t = spec_votes (CHR ''X'') (spec_voters rnd k models)"
    and "totalConfidence t = spec_total_weight (spec_voters rnd k models)"
    and "snd (extra_loop rnd 0 (t0, k)) = k + 10"
proof -
  have e: "(0::nat) + 5 = 5" by simp
  note l = extra_loop_tally [OF e, of rnd t0 k]
  note f = fold_add_vote [of models "\<lparr>votes_T = 0, votes_X = 0, totalConfidence = 0, explains = []\<rparr>"]
  show "votes_T t = spec_votes (CHR ''T'') (spec_voters rnd k models)"
    using l f by (simp add: t_def t0_def spec_voters_def spec_synthetic_voters_def spec_votes_append)
  show "votes_X t = spec_votes (CHR ''X'') (spec_voters rnd k models)"
    using l f by (simp add: t_def t0_def spec_voters_def spec_synthetic_voters_def spec_votes_append)
  show "totalConfidence t = spec_total_weight (spec_voters rnd k models)"
    using l f
    by (simp add: t_def t0_def spec_voters_def spec_synthetic_voters_def spec_total_weight_append)
  show "snd (extra_loop rnd 0 (t0, k)) = k + 10"
    using l by simp
qed

lemma ensemble_du_doan:
  "du_doan (fst (ensemblePrediction rnd k models)) =
     (if spec_votes (CHR ''T'') (spec_voters rnd k models)
           > spec_votes (CHR ''X'') (spec_voters rnd k models)
      then ''TAI'' else ''XIU'')"
  using ensemble_tally(1,2) [of rnd models k]
  by (simp add: ensemblePrediction_def Let_def split_beta)

lemma ensemble_do_tin_cay:
  "do_tin_cay (fst (ensemblePrediction rnd k models)) =
     percent (max (spec_votes (CHR ''T'') (spec_voters rnd k models))
                  (spec_votes (CHR ''X'') (spec_voters rnd k models)))
       (spec_total_weight (spec_voters rnd k models)) @ ''%''"
  using ensemble_tally(1,2,3) [of rnd models k]
  by (simp add: ensemblePrediction_def Let_def split_beta)

lemma ensemble_counter: "snd (ensemblePrediction rnd k models) = k + 10"
  using ensemble_tally(4) [of rnd models k]
  by (simp add: ensemblePrediction_def Let_def split_beta)

lemma spec_votes_bounds:
  "list_all (\<lambda>v. 0 \<le> snd v) vs \<Longrightarrow> 0 \<le> spec_votes c vs \<and> spec_votes c vs \<le> spec_total_weight vs"
  by (induction vs) (auto simp: spec_votes_def spec_total_weight_def)

lemma spec_total_weight_lower:
  "list_all (\<lambda>v. lo \<le> snd v) vs \<Longrightarrow> lo * of_nat (length vs) \<le> spec_total_weight vs"
  by (induction vs) (auto simp: spec_total_weight_def algebra_simps)

lemma synthetic_voters_conf:
  assumes "\<forall>i. 0 \<le> rnd i \<and> rnd i < 1"
  shows "list_all (\<lambda>v. 6 / 10 \<le> snd v) (spec_synthetic_voters rnd k)"
  using assms by (simp add: spec_synthetic_voters_def spec_synthetic_voter_def list_all_iff)

lemma voters_weight:
  assumes m: "list_all (vote_ok 0) models" and r: "\<forall>i. 0 \<le> rnd i \<and> rnd i < 1"
  shows "list_all (\<lambda>v. 0 \<le> snd v) (spec_voters rnd k models)"
    and "3 \<le> spec_total_weight (spec_voters rnd k models)"
proof -
  have a: "list_all (\<lambda>v. 0 \<le> snd v) (map (\<lambda>m. (prediction m, confidence m)) models)"
    using m by (simp add: list_all_iff vote_ok_def)
  have b: "list_all (\<lambda>v. 6 / 10 \<le> snd v) (spec_synthetic_voters rnd k)"
    using r by (rule synthetic_voters_conf)
  then have b0: "list_all (\<lambda>v. 0 \<le> snd v) (spec_synthetic_voters rnd k)"
    by (auto simp: list_all_iff)
  show "list_all (\<lambda>v. 0 \<le> snd v) (spec_voters rnd k models)"
    using a b0 by (simp add: spec_voters_def)
  have "0 \<le> spec_total_weight (map (\<lambda>m. (prediction m, confidence m)) models)"
    using spec_total_weight_lower [OF a] by simp
  moreover have "3 \<le> spec_total_weight (spec_synthetic_voters rnd k)"
    using spec_total_weight_lower [OF b] by (simp add: spec_synthetic_voters_def)
  ultimately show "3 \<le> spec_total_weight (spec_voters rnd k models)"
    by (simp add: spec_voters_def spec_total_weight_append)
qed


lemma ensemble_confidence_value:
  fixes k :: nat
  assumes m: "list_all (vote_ok 0) models" and r: "\<forall>i. 0 \<le> rnd i \<and> rnd i < 1"
  defines "vs \<equiv> spec_voters rnd k models"
  defines "c \<equiv> max (spec_votes (CHR ''T'') vs) (spec_votes (CHR ''X'') vs) / spec_total_weight vs * 100"
  shows "do_tin_cay (fst (ensemblePrediction rnd k models)) = toFixed2 c @ ''%''"
    and "0 \<le> c" and "c \<le> 100"
proof -
  have w: "3 \<le> spec_total_weight vs" and nn: "list_all (\<lambda>v. 0 \<le> snd v) vs"
    unfolding vs_def using voters_weight [OF m r] by simp_all
  have "percent (max (spec_votes (CHR ''T'') vs) (spec_votes (CHR ''X'') vs))
      (spec_total_weight vs) = toFixed2 c"
    using w by (simp add: percent_def c_def)
  then show "do_tin_cay (fst (ensemblePrediction rnd k models)) = toFixed2 c @ ''%''"
    by (simp add: ensemble_do_tin_cay vs_def)
  have mx: "0 \<le> max (spec_votes (CHR ''T'') vs) (spec_votes (CHR ''X'') vs)"
    "max (spec_votes (CHR ''T'') vs) (spec_votes (CHR ''X'') vs) \<le> spec_total_weight vs"
    using spec_votes_bounds [OF nn, of "CHR ''T''"] spec_votes_bounds [OF nn, of "CHR ''X''"]
    by (auto simp: max_def)
  show "0 \<le> c" using mx(1) w by (simp add: c_def)
  define q where
    "q = max (spec_votes (CHR ''T'') vs) (spec_votes (CHR ''X'') vs) / spec_total_weight vs"
  have "q \<le> 1"
    unfolding q_def using mx(2) w by (simp add: divide_le_eq_1)
  moreover have "c = q * 100" by (simp add: c_def q_def)
  ultimately show "c \<le> 100" by linarith
qed




section \<open>The endpoint, branch by branch\<close>

lemma predict_Nil:
  assumes "sort_key (\<lambda>s. - sid s) list = []"
  shows "predict rnd k list = (Json_error ''No sessions found'', k)"
  unfolding predict_def Let_def assms list.case by (rule refl)

lemma predict_model3_throws:
  assumes "sort_key (\<lambda>s. - sid s) list = latest # rest"
    and "model1PatternAnalysis rnd k (getRecentPatterns (latest # rest) 5) = (m1, k1)"
    and "model3Markov (latest # rest) = Inl e"
  shows "predict rnd k list = (Status_500 ''Failed to fetch or process data'', k1)"
  unfolding predict_def Let_def assms(1) list.case assms(2) prod.case assms(3) sum.case
  by (rule refl)

lemma predict_model5_throws:
  assumes "sort_key (\<lambda>s. - sid s) list = latest # rest"
    and "model1PatternAnalysis rnd k (getRecentPatterns (latest # rest) 5) = (m1, k1)"
    and "model3Markov (latest # rest) = Inr m3"
    and "model5Heuristic (getRecentPatterns (latest # rest) 5) (calculateRatios (latest # rest))
           = Inl e"
  shows "predict rnd k list = (Status_500 ''Failed to fetch or process data'', k1)"
  unfolding predict_def Let_def assms(1) list.case assms(2) prod.case assms(3) sum.case
    assms(4)
  by (rule refl)

lemma predict_unfold:
  assumes "sort_key (\<lambda>s. - sid s) list = latest # rest"
    and "model1PatternAnalysis rnd k (getRecentPatterns (latest # rest) 5) = (m1, k1)"
    and "model3Markov (latest # rest) = Inr m3"
    and "model5Heuristic (getRecentPatterns (latest # rest) 5) (calculateRatios (latest # rest))
           = Inr m5"
    and "ensemblePrediction rnd k1
           [m1, model2Probability (latest # rest), m3,
            model4NGram (getRecentPatterns (latest # rest) 5) (latest # rest), m5] = (r, k2)"
  shows "predict rnd k list =
     (Json_output
        \<lparr>o_session = sid latest, o_dice = dices latest,
         o_total = point latest, o_result = resultTruyenThong latest,
         o_next_session = sid latest + 1,
         o_du_doan = du_doan r, o_do_tin_cay = do_tin_cay r,
         o_giai_thich = giai_thich r, o_pattern = getRecentPatterns (latest # rest) 5,
         o_ty_le = calculateRatios (latest # rest), o_id = ''Viet Anh Ba San Tool''\<rparr>, k2)"
  unfolding predict_def Let_def assms(1) list.case assms(2) prod.case assms(3) sum.case
    assms(4) assms(5)
  by (rule refl)


section \<open>The endpoint on a non-empty history\<close>

lemma vote_ok_weaken: "vote_ok (1 / 2) v \<Longrightarrow> vote_ok 0 v"
  by (simp add: vote_ok_def)

lemma round2_le:
  assumes "0 \<le> x" and "x \<le> 100"
  shows "(of_nat (round2 x) :: rat) / 100 \<le> 100"
proof -
  have "(of_nat (round2 x) :: rat) \<le> x * 100 + 1 / 2"
    using round2_bounds(2) [OF assms(1)] .
  then have "(of_nat (round2 x) :: rat) < of_nat 10001"
    using assms(2) by simp
  then have "round2 x < 10001" by (simp only: of_nat_less_iff)
  then have "round2 x \<le> 10000" by simp
  then have "(of_nat (round2 x) :: rat) \<le> of_nat 10000" by (simp only: of_nat_le_iff)
  then show ?thesis by simp
qed

lemma predict_nonempty:
  assumes ne: "list \<noteq> []" and r: "\<forall>i. 0 \<le> rnd i \<and> rnd i < 1"
  shows "\<exists>out k'. predict rnd k list = (Json_output out, k')
           \<and> (o_du_doan out = ''TAI'' \<or> o_du_doan out = ''XIU'')
           \<and> (\<exists>c. parseFloat (o_do_tin_cay out) = Some c \<and> 0 \<le> c \<and> c \<le> 100)"
proof -
  have "length (sort_key (\<lambda>s. - sid s) list) = length list" by simp
  then obtain latest rest where srt: "sort_key (\<lambda>s. - sid s) list = latest # rest"
    using ne by (cases "sort_key (\<lambda>s. - sid s) list") auto
  define sessions where "sessions = latest # rest"
  have sne: "sessions \<noteq> []" by (simp add: sessions_def)
  define pat where "pat = getRecentPatterns sessions 5"
  obtain m1 k1 where m1: "model1PatternAnalysis rnd k pat = (m1, k1)"
    by (cases "model1PatternAnalysis rnd k pat") auto
  have ok1: "vote_ok (1 / 2) m1"
    using model1_vote_ok [of rnd k pat] m1 by simp
  obtain m3 where m3: "model3Markov sessions = Inr m3" "vote_ok (1 / 2) m3"
    using model3_vote_ok [OF sne] by blast
  obtain c cs where hd: "pat = c # cs" "c = CHR ''T'' \<or> c = CHR ''X''"
    unfolding pat_def using pattern_head [OF sne] by blast
  obtain m5 where m5: "model5Heuristic pat (calculateRatios sessions) = Inr m5"
      "vote_ok (1 / 2) m5"
    using model5_vote_ok [OF hd] by blast
  define models where
    "models = [m1, model2Probability sessions, m3, model4NGram pat sessions, m5]"
  obtain res k2 where e: "ensemblePrediction rnd k1 models = (res, k2)"
    by (cases "ensemblePrediction rnd k1 models") auto
  have ok: "list_all (vote_ok 0) models"
    using ok1 m3(2) m5(2) model2_vote_ok [of sessions] model4_vote_ok [of pat sessions]
    by (simp add: models_def vote_ok_weaken)
  note c = ensemble_confidence_value [OF ok r, of k1]
  have res: "res = fst (ensemblePrediction rnd k1 models)" by (simp add: e)
  define x where "x = max (spec_votes (CHR ''T'') (spec_voters rnd k1 models))
           (spec_votes (CHR ''X'') (spec_voters rnd k1 models))
         / spec_total_weight (spec_voters rnd k1 models) * 100"
  have pf: "parseFloat (do_tin_cay res) = Some (of_nat (round2 x) / 100)"
    unfolding res c(1) x_def using c(2) by (rule parseFloat_toFixed2)
  have hi: "(of_nat (round2 x) :: rat) / 100 \<le> 100"
    unfolding x_def using c(2) c(3) by (rule round2_le)
  have lo: "0 \<le> (of_nat (round2 x) :: rat) / 100" by simp
  have conf: "\<exists>c. parseFloat (do_tin_cay res) = Some c \<and> 0 \<le> c \<and> c \<le> 100"
    using pf lo hi by blast
  have dd: "du_doan res = ''TAI'' \<or> du_doan res = ''XIU''"
    unfolding res ensemble_du_doan by simp
  have "predict rnd k list =
     (Json_output
        \<lparr>o_session = sid latest, o_dice = dices latest,
         o_total = point latest, o_result = resultTruyenThong latest,
         o_next_session = sid latest + 1,
         o_du_doan = du_doan res, o_do_tin_cay = do_tin_cay res,
         o_giai_thich = giai_thich res, o_pattern = getRecentPatterns (latest # rest) 5,
         o_ty_le = calculateRatios (latest # rest), o_id = ''Viet Anh Ba San Tool''\<rparr>, k2)"
    using srt m1 m3(1) m5(1) e
    unfolding pat_def sessions_def models_def by (rule predict_unfold)
  then show ?thesis using dd conf by simp
qed

lemma markov_fallback:
  assumes "sessions \<noteq> []"
    and "lookup (markov_loop sessions \<lparr>TT = 0, TX = 0, XT = 0, XX = 0\<rparr>)
             (getPatternChar (resultTruyenThong (hd sessions))) (CHR ''T'')
         + lookup (markov_loop sessions \<lparr>TT = 0, TX = 0, XT = 0, XX = 0\<rparr>)
             (getPatternChar (resultTruyenThong (hd sessions))) (CHR ''X'') = 0"
  shows "\<exists>e. model3Markov sessions = Inr \<lparr>prediction = CHR ''X'', confidence = 1 / 2, explain = e\<rparr>"
proof -
  obtain s0 rest where s: "sessions = s0 # rest" using assms(1) by (cases sessions) auto
  show ?thesis
    using assms(2) unfolding s by (simp add: model3Markov_def Let_def markov_pT_def)
qed

lemma ngram_fallback:
  assumes "ngram_loop (map (\<lambda>s. getPatternChar (resultTruyenThong s)) sessions) (take 4 pat)
             4 0 (0, 0) = (0, 0)"
  shows "model4NGram pat sessions =
           \<lparr>prediction = CHR ''T'', confidence = 1 / 2,
            explain = ''Khong co mau khop, du doan mac dinh.''\<rparr>"
  using assms by (simp add: model4NGram_def Let_def)

text \<open>
  C2.  For every non-empty history and every random source with values in \<open>[0, 1)\<close>, the
  endpoint returns an output (no model has thrown, or the answer would be the status 500):
  its prediction is \<open>TAI\<close> or \<open>XIU\<close>, and its confidence reads as a number between \<open>0\<close>
  and \<open>100\<close>.  The divisions by zero do not fail: the rolling window is not empty; with no
  transition out of the latest symbol model 3 votes with \<open>p = 0.5\<close>, that is \<open>X\<close> with
  confidence \<open>0.5\<close>; with no match model 4 votes \<open>T\<close> with confidence \<open>0.5\<close>.
\<close>

theorem predict_returns_on_nonempty_history:
  assumes "list \<noteq> []" and "\<forall>i. 0 \<le> rnd i \<and> rnd i < 1"
  shows "(let sessions = sort_key (\<lambda>s. - sid s) list;
              pat = getRecentPatterns sessions 5;
              tr = markov_loop sessions \<lparr>TT = 0, TX = 0, XT = 0, XX = 0\<rparr>;
              last_c = getPatternChar (resultTruyenThong (hd sessions));
              history = map (\<lambda>s. getPatternChar (resultTruyenThong s)) sessions
          in (\<exists>out k'. predict rnd k list = (Json_output out, k')
                \<and> (o_du_doan out = ''TAI'' \<or> o_du_doan out = ''XIU'')
                \<and> (\<exists>c. parseFloat (o_do_tin_cay out) = Some c \<and> 0 \<le> c \<and> c \<le> 100))
             \<and> take 20 sessions \<noteq> []
             \<and> (lookup tr last_c (CHR ''T'') + lookup tr last_c (CHR ''X'') = 0 \<longrightarrow>
                  (\<exists>e. model3Markov sessions =
                     Inr \<lparr>prediction = CHR ''X'', confidence = 1 / 2, explain = e\<rparr>))
             \<and> (ngram_loop history (take 4 pat) 4 0 (0, 0) = (0, 0) \<longrightarrow>
                  model4NGram pat sessions =
                    \<lparr>prediction = CHR ''T'', confidence = 1 / 2,
                     explain = ''Khong co mau khop, du doan mac dinh.''\<rparr>))"
proof -
  have "set (sort_key (\<lambda>s. - sid s) list) = set list" by simp
  then have sne: "sort_key (\<lambda>s. - sid s) list \<noteq> []"
    using assms(1) by (metis set_empty)
  then have "take 20 (sort_key (\<lambda>s. - sid s) list) \<noteq> []" by simp
  then show ?thesis
    unfolding Let_def
    using predict_nonempty [OF assms, of k] markov_fallback [OF sne] ngram_fallback
    by blast
qed

theorem predict_returns_on_nonempty_history_witness:
  "[\<lparr>sid = 1, dices = [], point = 0, resultTruyenThong = ''TAI''\<rparr>] \<noteq> []
   \<and> (\<forall>i. (0::rat) \<le> (\<lambda>i. 1 / 2) i \<and> (\<lambda>i. 1 / 2 :: rat) i < 1)
   \<and> (\<exists>out k'. predict (\<lambda>i. 1 / 2) 0
           [\<lparr>sid = 1, dices = [], point = 0, resultTruyenThong = ''TAI''\<rparr>] = (Json_output out, k')
         \<and> (o_du_doan out = ''TAI'' \<or> o_du_doan out = ''XIU'')
         \<and> (\<exists>c. parseFloat (o_do_tin_cay out) = Some c \<and> 0 \<le> c \<and> c \<le> 100))
   \<and> (\<exists>e. model3Markov [\<lparr>sid = 1, dices = [], point = 0, resultTruyenThong = ''TAI''\<rparr>] =
         Inr \<lparr>prediction = CHR ''X'', confidence = 1 / 2, explain = e\<rparr>)
   \<and> model4NGram ''T'' [\<lparr>sid = 1, dices = [], point = 0, resultTruyenThong = ''TAI''\<rparr>] =
         \<lparr>prediction = CHR ''T'', confidence = 1 / 2,
          explain = ''Khong co mau khop, du doan mac dinh.''\<rparr>"
proof -
  define s0 where "s0 = \<lparr>sid = 1, dices = [], point = 0, resultTruyenThong = ''TAI''\<rparr>"
  have h1: "[s0] \<noteq> []" by simp
  have h2: "\<forall>i. (0::rat) \<le> (\<lambda>i. 1 / 2) i \<and> (\<lambda>i. 1 / 2 :: rat) i < 1" by simp
  have srt: "sort_key (\<lambda>s. - sid s) [s0] = [s0]" by simp
  have pat: "getRecentPatterns [s0] 5 = ''T''"
    by (simp add: getRecentPatterns_def getPatternChar_def s0_def)
  have a1: "lookup (markov_loop [s0] \<lparr>TT = 0, TX = 0, XT = 0, XX = 0\<rparr>)
        (getPatternChar (resultTruyenThong (hd [s0]))) (CHR ''T'')
      + lookup (markov_loop [s0] \<lparr>TT = 0, TX = 0, XT = 0, XX = 0\<rparr>)
        (getPatternChar (resultTruyenThong (hd [s0]))) (CHR ''X'') = 0"
    by (simp add: lookup_def)
  have a2: "ngram_loop (map (\<lambda>s. getPatternChar (resultTruyenThong s)) [s0]) (take 4 ''T'')
      4 0 (0, 0) = (0, 0)"
    by (simp add: ngram_loop.simps)
  have "(\<exists>out k'. predict (\<lambda>i. 1 / 2) 0 [s0] = (Json_output out, k')
           \<and> (o_du_doan out = ''TAI'' \<or> o_du_doan out = ''XIU'')
           \<and> (\<exists>c. parseFloat (o_do_tin_cay out) = Some c \<and> 0 \<le> c \<and> c \<le> 100))
     \<and> (\<exists>e. model3Markov [s0] = Inr \<lparr>prediction = CHR ''X'', confidence = 1 / 2, explain = e\<rparr>)
     \<and> model4NGram ''T'' [s0] =
         \<lparr>prediction = CHR ''T'', confidence = 1 / 2,
          explain = ''Khong co mau khop, du doan mac dinh.''\<rparr>"
    using predict_returns_on_nonempty_history [OF h1 h2, of 0] a1 a2
    unfolding Let_def srt pat by blast
  then show ?thesis using h1 h2 unfolding s0_def by blast
qed


section \<open>The random source\<close>

lemma extra_loop_cong:
  "i + n = 5 \<Longrightarrow> (\<forall>j<2 * n. r1 (k + j) = r2 (k + j)) \<Longrightarrow>
   extra_loop r1 i (t, k) = extra_loop r2 i (t, k)"
proof (induction n arbitrary: i t k)
  case 0
  then show ?case by (simp add: extra_loop_stop)
next
  case (Suc n)
  then have i: "i < 5" and n: "Suc i + n = 5" by simp_all
  have a0: "r1 k = r2 k" using Suc.prems(2) [rule_format, of 0] by simp
  have a1: "r1 (k + 1) = r2 (k + 1)" using Suc.prems(2) [rule_format, of 1] by simp
  have rest: "\<forall>j<2 * n. r1 (k + 2 + j) = r2 (k + 2 + j)"
  proof (intro allI impI)
    fix j assume "j < 2 * n"
    then have "j + 2 < 2 * Suc n" by simp
    then have "r1 (k + (j + 2)) = r2 (k + (j + 2))" using Suc.prems(2) by blast
    then show "r1 (k + 2 + j) = r2 (k + 2 + j)" by (simp add: add.commute add.left_commute)
  qed
  show ?case
    unfolding extra_loop_step [OF i] a0 a1
    by (rule Suc.IH [OF n rest])
qed

lemma ensemble_cong:
  assumes "\<forall>j<10. r1 (k + j) = r2 (k + j)"
  shows "ensemblePrediction r1 k models = ensemblePrediction r2 k models"
proof -
  have "extra_loop r1 0 (t, k) = extra_loop r2 0 (t, k)" for t
    using assms by (intro extra_loop_cong [of 0 5]) simp_all
  then show ?thesis by (simp add: ensemblePrediction_def)
qed

lemma model1_cong:
  "r1 k = r2 k \<Longrightarrow> model1PatternAnalysis r1 k pat = model1PatternAnalysis r2 k pat"
  by (simp add: model1PatternAnalysis_def)

lemma model1_counter:
  "snd (model1PatternAnalysis rnd k pat) = k \<or> snd (model1PatternAnalysis rnd k pat) = Suc k"
  by (simp add: model1PatternAnalysis_def Let_def)

text \<open>
  C9.  The output of the endpoint is a function of the history and of the eleven draws
  that follow the counter: with two random sources that agree on these draws, two runs on
  the same history return the same response, the explanation text included, and leave
  the counter at the same place.
\<close>

theorem predict_depends_on_eleven_draws:
  assumes "map r1 [k..<k + 11] = map r2 [k..<k + 11]"
  shows "predict r1 k list = predict r2 k list"
proof (cases "sort_key (\<lambda>s. - sid s) list")
  case Nil
  then show ?thesis by (simp only: predict_Nil)
next
  case (Cons latest rest)
  have agree: "r1 (k + j) = r2 (k + j)" if "j < 11" for j
  proof -
    have "\<forall>x\<in>{k..<k + 11}. r1 x = r2 x" using assms by simp
    moreover have "k + j \<in> {k..<k + 11}" using that by simp
    ultimately show ?thesis by blast
  qed
  define pat where "pat = getRecentPatterns (latest # rest) 5"
  obtain m1 k1 where m2: "model1PatternAnalysis r2 k pat = (m1, k1)"
    by (cases "model1PatternAnalysis r2 k pat") auto
  have m1: "model1PatternAnalysis r1 k pat = (m1, k1)"
    using agree [of 0] m2 model1_cong [of r1 k r2 pat] by simp
  have "\<forall>j<10. r1 (k1 + j) = r2 (k1 + j)"
  proof (intro allI impI)
    fix j :: nat assume j: "j < 10"
    from model1_counter [of r2 k pat] show "r1 (k1 + j) = r2 (k1 + j)"
    proof
      assume "snd (model1PatternAnalysis r2 k pat) = k"
      then show ?thesis using agree [of j] j m2 by simp
    next
      assume "snd (model1PatternAnalysis r2 k pat) = Suc k"
      then show ?thesis using agree [of "Suc j"] j m2 by simp
    qed
  qed
  then have ens: "ensemblePrediction r1 k1 models = ensemblePrediction r2 k1 models" for models
    by (rule ensemble_cong)
  show ?thesis
  proof (cases "model3Markov (latest # rest)")
    case (Inl e)
    show ?thesis
      using predict_model3_throws [OF Cons m1 [unfolded pat_def] Inl]
        predict_model3_throws [OF Cons m2 [unfolded pat_def] Inl]
      by simp
  next
    case m3: (Inr m3)
    show ?thesis
    proof (cases "model5Heuristic pat (calculateRatios (latest # rest))")
      case (Inl e)
      show ?thesis
        using predict_model5_throws [OF Cons m1 [unfolded pat_def] m3 Inl [unfolded pat_def]]
          predict_model5_throws [OF Cons m2 [unfolded pat_def] m3 Inl [unfolded pat_def]]
        by simp
    next
      case m5: (Inr m5)
      obtain r k2 where e2: "ensemblePrediction r2 k1
           [m1, model2Probability (latest # rest), m3,
            model4NGram (getRecentPatterns (latest # rest) 5) (latest # rest), m5] = (r, k2)"
        by (cases "ensemblePrediction r2 k1
           [m1, model2Probability (latest # rest), m3,
            model4NGram (getRecentPatterns (latest # rest) 5) (latest # rest), m5]") auto
      have e1: "ensemblePrediction r1 k1
           [m1, model2Probability (latest # rest), m3,
            model4NGram (getRecentPatterns (latest # rest) 5) (latest # rest), m5] = (r, k2)"
        using e2 by (simp only: ens)
      show ?thesis
        using predict_unfold [OF Cons m1 [unfolded pat_def] m3 m5 [unfolded pat_def] e1]
          predict_unfold [OF Cons m2 [unfolded pat_def] m3 m5 [unfolded pat_def] e2]
        by simp
    qed
  qed
qed

theorem predict_depends_on_eleven_draws_witness:
  "map (\<lambda>i. 1 / 2 :: rat) [0..<0 + 11] = map (\<lambda>i. if i < 11 then 1 / 2 else 0) [0..<0 + 11]
   \<and> predict (\<lambda>i. 1 / 2) 0
        [\<lparr>sid = 2, dices = [], point = 0, resultTruyenThong = ''TAI''\<rparr>,
         \<lparr>sid = 1, dices = [], point = 0, resultTruyenThong = ''XIU''\<rparr>]
     = predict (\<lambda>i. if i < 11 then 1 / 2 else 0) 0
        [\<lparr>sid = 2, dices = [], point = 0, resultTruyenThong = ''TAI''\<rparr>,
         \<lparr>sid = 1, dices = [], point = 0, resultTruyenThong = ''XIU''\<rparr>]"
proof -
  have h: "map (\<lambda>i. 1 / 2 :: rat) [0..<0 + 11] =
      map (\<lambda>i. if i < 11 then 1 / 2 else 0) [0..<0 + 11]"
    by simp
  from h predict_depends_on_eleven_draws [OF h] show ?thesis
    by (rule conjI)
qed

end
